theory Spec2Isabelle
  imports Main "HOL-Library.Word" "HOL-Library.Multiset" "HOL-Library.List_Lexorder"
begin

section \<open>JavaScript values used by scripts/update.ts\<close>

text \<open>
  A JavaScript string is a sequence of UTF-16 code units. String literals of the script are
  ASCII; \<open>js\<close> embeds an ASCII literal.
\<close>

type_synonym js_char = "16 word"
type_synonym js_string = "js_char list"

definition js :: "string \<Rightarrow> js_string" where
  "js s = map (\<lambda>c. of_nat (of_char c)) s"

datatype js_error = TypeError

text \<open>
  \<open>Array.prototype.sort\<close> with a comparison function. ECMAScript fixes the result when the
  comparison function is consistent (a total preorder): the sorted permutation in which
  elements that compare equal keep their order. Insertion from the right computes it.
  For an inconsistent comparison function the order is implementation-defined, so every
  statement about the order below assumes \<open>consistent_comparator\<close>.
\<close>

fun js_insert :: "('a \<Rightarrow> 'a \<Rightarrow> int) \<Rightarrow> 'a \<Rightarrow> 'a list \<Rightarrow> 'a list" where
  "js_insert cmp x [] = [x]"
| "js_insert cmp x (y # ys) = (if cmp x y \<le> 0 then x # y # ys else y # js_insert cmp x ys)"

definition js_sort :: "('a \<Rightarrow> 'a \<Rightarrow> int) \<Rightarrow> 'a list \<Rightarrow> 'a list" where
  "js_sort cmp xs = foldr (js_insert cmp) xs []"

definition consistent_comparator :: "('a \<Rightarrow> 'a \<Rightarrow> int) \<Rightarrow> bool" where
  "consistent_comparator cmp \<longleftrightarrow>
     (\<forall>a b. (cmp a b < 0) = (0 < cmp b a)) \<and>
     (\<forall>a b c. cmp a b \<le> 0 \<and> cmp b c \<le> 0 \<longrightarrow> cmp a c \<le> 0)"

text \<open>
  An ordinary object used as a dictionary (\<open>Record<string, T>\<close>, created by \<open>{}\<close>): its own
  properties in creation order. Reading \<open>o[k]\<close> for a key that is not an own property
  continues in \<open>Object.prototype\<close>, whose properties are listed here; each of them is a
  function or an object, so it is truthy and has no \<open>push\<close> method.
\<close>

type_synonym 'a js_object = "(js_string \<times> 'a) list"

definition object_prototype_keys :: "js_string list" where
  "object_prototype_keys = map js
     [''constructor'', ''__defineGetter__'', ''__defineSetter__'', ''hasOwnProperty'',
      ''__lookupGetter__'', ''__lookupSetter__'', ''isPrototypeOf'', ''propertyIsEnumerable'',
      ''toString'', ''valueOf'', ''__proto__'', ''toLocaleString'']"

fun set_property :: "js_string \<Rightarrow> 'a \<Rightarrow> 'a js_object \<Rightarrow> 'a js_object" where
  "set_property k v [] = [(k, v)]"
| "set_property k v (p # ps) = (if fst p = k then (k, v) # ps else p # set_property k v ps)"

text \<open>
  \<open>for (k in o)\<close> visits the own string keys in the order of OrdinaryOwnPropertyKeys: first the
  array indices (canonical decimal numerals of the integers up to \<open>2^32 - 2\<close>) in ascending
  numeric order, then all other keys in creation order.
\<close>

definition is_digit :: "js_char \<Rightarrow> bool" where
  "is_digit c = (0x30 \<le> c \<and> c \<le> 0x39)"

definition index_value :: "js_string \<Rightarrow> int" where
  "index_value s = foldl (\<lambda>n c. 10 * n + (uint c - 48)) 0 s"

definition is_array_index :: "js_string \<Rightarrow> bool" where
  "is_array_index s =
     (case s of [] \<Rightarrow> False
      | c # cs \<Rightarrow> list_all is_digit s \<and> (if c = 0x30 then cs = [] else True)
                 \<and> index_value s \<le> 4294967294)"

definition for_in :: "'a js_object \<Rightarrow> (js_string \<times> 'a) list" where
  "for_in obj =
     sort_key (\<lambda>p. index_value (fst p)) (filter (\<lambda>p. is_array_index (fst p)) obj)
     @ filter (\<lambda>p. \<not> is_array_index (fst p)) obj"

section \<open>Data model\<close>

text \<open>
  Modelled from the spec: the record types \<open>Definition\<close> and \<open>FAQ\<close> are declared in notion.ts,
  which is not among the sources; the fields are those the script reads and the spec's data
  model lists. The rich-text sequence and the content block are left as type parameters.
\<close>

record 'rt Definition =
  d_pageId :: js_string
  d_term :: 'rt
  d_definition :: 'rt
  d_url :: js_string

record ('rt, 'blk) FAQ =
  f_section :: js_string
  f_order :: int
  f_question :: js_string
  f_answer :: 'rt
  f_blocks :: "'blk list"

text \<open>
  Modelled from the spec: the enum \<open>DefinitionValidity\<close> and the type \<open>LinkableTerms\<close> are
  declared in format.ts, which is not among the sources. The enum is a closed set of named
  outcomes, one of them \<open>Valid\<close>; \<open>Invalid n\<close> stands for the n-th other outcome. The table
  maps a page id to the five fields the script stores.
\<close>

datatype DefinitionValidity = Valid | Invalid nat

record LinkableTerm =
  lt_text :: js_string
  lt_anchor :: js_string
  lt_page :: js_string
  lt_valid :: DefinitionValidity
  lt_notionURL :: js_string

type_synonym LinkableTerms = "js_string \<rightharpoonup> LinkableTerm"

text \<open>
  The functions the script imports from format.ts are parameters of the development: every
  function below takes the record \<open>F\<close> of them. They are pure functions of their arguments.
\<close>

record ('rt, 'blk, 'proj) format_module =
  stripCurlyQuotes :: "js_string \<Rightarrow> js_string"
  renderBlocks :: "'blk list \<Rightarrow> LinkableTerms \<Rightarrow> js_string"
  renderRichTexts :: "'rt \<Rightarrow> LinkableTerms \<Rightarrow> js_string"
  formatGlossaryTermKey :: "'rt \<Rightarrow> LinkableTerms \<Rightarrow> js_string"
  validDefinitionToPublish :: "'rt Definition \<Rightarrow> 'proj \<Rightarrow> DefinitionValidity"

record RenderedDefinition =
  r_term :: js_string
  r_definition :: js_string
  r_key :: js_string

section \<open>The glossary composer\<close>

text \<open>
  The character class \<open>[a-z0-9\s$-()-]\<close> of the regular expression in \<open>renderDefinition\<close>,
  under the flag \<open>i\<close>: the ranges \<open>a-z\<close> (with \<open>A-Z\<close> by case folding) and \<open>0-9\<close>, the white
  space of \<open>\s\<close>, the range from \<open>$\<close> (U+0024) to \<open>(\<close> (U+0028), then \<open>)\<close> and a final \<open>-\<close>.
\<close>

definition is_whitespace :: "js_char \<Rightarrow> bool" where
  "is_whitespace c =
     ((0x09 \<le> c \<and> c \<le> 0x0D) \<or> c = 0x20 \<or> c = 0xA0 \<or> c = 0x1680
      \<or> (0x2000 \<le> c \<and> c \<le> 0x200A) \<or> c = 0x2028 \<or> c = 0x2029 \<or> c = 0x202F
      \<or> c = 0x205F \<or> c = 0x3000 \<or> c = 0xFEFF)"

definition term_class :: "js_char \<Rightarrow> bool" where
  "term_class c =
     ((0x61 \<le> c \<and> c \<le> 0x7A) \<or> (0x41 \<le> c \<and> c \<le> 0x5A) \<or> (0x30 \<le> c \<and> c \<le> 0x39)
      \<or> is_whitespace c \<or> (0x24 \<le> c \<and> c \<le> 0x28) \<or> c = 0x29 \<or> c = 0x2D)"

definition renderDefinition ::
  "('rt, 'blk, 'proj) format_module \<Rightarrow> 'rt Definition \<Rightarrow> LinkableTerms \<Rightarrow> RenderedDefinition" where
  "renderDefinition F d linkableTerms =
     (let rendered = renderRichTexts F (d_term d) linkableTerms;
          formattedTerm = filter term_class rendered;
          dashDelimitedTermKey = formatGlossaryTermKey F (d_term d) linkableTerms
      in \<lparr> r_term = formattedTerm,
           r_definition = renderRichTexts F (d_definition d) linkableTerms,
           r_key = dashDelimitedTermKey \<rparr>)"

text \<open>
  \<open>formatDefinitions\<close>, in its three steps: the rendered and sorted triples, the heading
  block of one triple, and the wrapped concatenation. \<open>localeCompare\<close> is the host's
  \<open>String.prototype.localeCompare\<close>, called without locale or options, so it is the collation
  of the default locale of the machine that runs the script; it is a parameter.
\<close>

definition renderedDefs ::
  "('rt, 'blk, 'proj) format_module \<Rightarrow> (js_string \<Rightarrow> js_string \<Rightarrow> int) \<Rightarrow> 'rt Definition list
     \<Rightarrow> LinkableTerms \<Rightarrow> RenderedDefinition list" where
  "renderedDefs F localeCompare definitions linkableTerms =
     js_sort (\<lambda>a b. localeCompare (r_term a) (r_term b))
       (map (\<lambda>d. renderDefinition F d linkableTerms) definitions)"

definition glossaryItem :: "RenderedDefinition \<Rightarrow> js_string" where
  "glossaryItem item =
     js ''### '' @ r_term item @ js '' {#'' @ r_key item @ js ''}\<newline>''
     @ r_definition item @ js ''\<newline>\<newline>''"

definition formatDefinitions ::
  "('rt, 'blk, 'proj) format_module \<Rightarrow> (js_string \<Rightarrow> js_string \<Rightarrow> int) \<Rightarrow> 'rt Definition list
     \<Rightarrow> LinkableTerms \<Rightarrow> js_string" where
  "formatDefinitions F localeCompare definitions linkableTerms =
     (let htmlArray = map glossaryItem (renderedDefs F localeCompare definitions linkableTerms)
      in js ''<div class=\"hidden-glossary\">\<newline>\<newline>'' @ concat htmlArray
         @ js ''\<newline></div>\<newline>'')"

section \<open>The FAQ composer\<close>

text \<open>
  \<open>organizeFAQ\<close>. The first loop reads \<open>sections[question.section]\<close>: an own property gives the
  array, to which the question is pushed; a missing key that \<open>Object.prototype\<close> also lacks
  gives \<open>undefined\<close>, so an array is created first; a missing key that names a property of
  \<open>Object.prototype\<close> gives a truthy value, no array is created, and the call of its missing
  \<open>push\<close> throws a TypeError. The second loop sorts every array by the difference of the
  \<open>order\<close> fields.
\<close>

fun organizeFAQ_loop ::
  "('rt, 'blk) FAQ list \<Rightarrow> ('rt, 'blk) FAQ list js_object
     \<Rightarrow> js_error + ('rt, 'blk) FAQ list js_object" where
  "organizeFAQ_loop [] sections = Inr sections"
| "organizeFAQ_loop (question # questions) sections =
     (case map_of sections (f_section question) of
        Some arr \<Rightarrow>
          organizeFAQ_loop questions (set_property (f_section question) (arr @ [question]) sections)
      | None \<Rightarrow>
          if f_section question \<in> set object_prototype_keys then Inl TypeError
          else organizeFAQ_loop questions (set_property (f_section question) [question] sections))"

definition organizeFAQ ::
  "('rt, 'blk) FAQ list \<Rightarrow> js_error + ('rt, 'blk) FAQ list js_object" where
  "organizeFAQ questions =
     (case organizeFAQ_loop questions [] of
        Inl e \<Rightarrow> Inl e
      | Inr sections \<Rightarrow>
          Inr (map (\<lambda>(section, arr).
                 (section, js_sort (\<lambda>question1 question2. f_order question1 - f_order question2) arr))
               sections))"

definition renderFAQ ::
  "('rt, 'blk, 'proj) format_module \<Rightarrow> ('rt, 'blk) FAQ \<Rightarrow> LinkableTerms \<Rightarrow> js_string" where
  "renderFAQ F faq linkableTerms =
     (let question = f_question faq;
          answer = f_answer faq;
          renderedAnswer = renderRichTexts F answer linkableTerms;
          renderedAnswer = (if length (f_blocks faq) > 0
                            then renderBlocks F (f_blocks faq) linkableTerms
                            else renderedAnswer);
          out = [];
          out = out @ js ''<dt data-displayed-on='dao-glossary'>'' @ stripCurlyQuotes F question
                    @ js ''</dt>\<newline>'';
          out = out @ js ''<dd data-displayed-on='dao-glossary'>''
                    @ stripCurlyQuotes F renderedAnswer @ js ''</dd>\<newline>''
      in out)"

definition renderFAQs ::
  "('rt, 'blk, 'proj) format_module \<Rightarrow> ('rt, 'blk) FAQ list \<Rightarrow> LinkableTerms \<Rightarrow> js_string" where
  "renderFAQs F faqs linkableTerms =
     js ''<dl class=\"definition-list\">\<newline>''
     @ concat (map (\<lambda>faq. renderFAQ F faq linkableTerms) faqs) @ js ''</dl>\<newline>''"

fun renderSections_loop ::
  "('rt, 'blk, 'proj) format_module \<Rightarrow> LinkableTerms \<Rightarrow> (js_string \<times> ('rt, 'blk) FAQ list) list
     \<Rightarrow> js_string \<Rightarrow> js_string" where
  "renderSections_loop F linkableTerms [] out = out"
| "renderSections_loop F linkableTerms (p # rest) out =
     renderSections_loop F linkableTerms rest
       (out @ js ''<h3 class=\"faq-section-title\">'' @ stripCurlyQuotes F (fst p)
            @ js ''</h3>\<newline>'' @ renderFAQs F (snd p) linkableTerms)"

definition renderSections ::
  "('rt, 'blk, 'proj) format_module \<Rightarrow> ('rt, 'blk) FAQ list js_object \<Rightarrow> LinkableTerms
     \<Rightarrow> js_string" where
  "renderSections F sections linkableTerms =
     renderSections_loop F linkableTerms (for_in sections) []"

section \<open>The orchestrator\<close>

text \<open>
  \<open>main\<close> after the three fetches, whose results are its arguments. The loop that fills the
  table is \<open>buildLinkableTerms\<close>: each entry is rendered against the table as it stands when
  the definition is reached. The result is the content of the two files written, or the
  error that rejects the promise.
\<close>

fun buildLinkableTerms ::
  "('rt, 'blk, 'proj) format_module \<Rightarrow> 'proj \<Rightarrow> 'rt Definition list \<Rightarrow> LinkableTerms
     \<Rightarrow> LinkableTerms" where
  "buildLinkableTerms F governanceProject [] linkableTerms = linkableTerms"
| "buildLinkableTerms F governanceProject (d # definitions) linkableTerms =
     buildLinkableTerms F governanceProject definitions
       (linkableTerms(d_pageId d \<mapsto>
          \<lparr> lt_text = renderRichTexts F (d_term d) linkableTerms,
            lt_anchor = formatGlossaryTermKey F (d_term d) linkableTerms,
            lt_page = js ''../dao-glossary.md'',
            lt_valid = validDefinitionToPublish F d governanceProject,
            lt_notionURL = d_url d \<rparr>))"

record partials =
  glossary_partial :: js_string
  faq_partial :: js_string

definition publishedDefinitions ::
  "('rt, 'blk, 'proj) format_module \<Rightarrow> 'proj \<Rightarrow> 'rt Definition list \<Rightarrow> 'rt Definition list" where
  "publishedDefinitions F governanceProject definitions =
     filter (\<lambda>d. validDefinitionToPublish F d governanceProject = Valid) definitions"

definition main ::
  "('rt, 'blk, 'proj) format_module \<Rightarrow> (js_string \<Rightarrow> js_string \<Rightarrow> int) \<Rightarrow> 'proj
     \<Rightarrow> ('rt, 'blk) FAQ list \<Rightarrow> 'rt Definition list \<Rightarrow> js_error + partials" where
  "main F localeCompare governanceProject faqs definitions =
     (let linkableTerms = buildLinkableTerms F governanceProject definitions Map.empty
      in case organizeFAQ faqs of
           Inl e \<Rightarrow> Inl e
         | Inr sections \<Rightarrow>
             (let sectionsHTML = renderSections F sections linkableTerms;
                  published = publishedDefinitions F governanceProject definitions;
                  definitionsHTML = formatDefinitions F localeCompare published linkableTerms
              in Inr \<lparr> glossary_partial = definitionsHTML, faq_partial = sectionsHTML \<rparr>))"

section \<open>An instance of the imported functions and of the collation\<close>

text \<open>
  Modelled from the spec: format.ts is not among the sources. The instance \<open>spec_format\<close>
  follows the spec's contracts of the rich-text renderer, the block renderer, the term-key
  formatter and the validity classifier, and serves to run the script on concrete inputs.
  A rich-text span is its text and an optional reference to a page id (inline formatting
  flags are left out); a block is a paragraph or a list item. A referenced page that is in
  the table and valid becomes a link to \<open>{page}#{anchor}\<close>, any other span is plain text.
  The spec does not give the business rules of the classifier: here the project context is
  the rule itself.
\<close>

datatype rich_text_span = Span js_string "js_string option"

type_synonym rich_text = "rich_text_span list"

datatype block = Paragraph rich_text | ListItem rich_text

definition spec_stripCurlyQuotes :: "js_string \<Rightarrow> js_string" where
  "spec_stripCurlyQuotes s =
     map (\<lambda>c. if c = 0x201C \<or> c = 0x201D then 0x22
              else if c = 0x2018 \<or> c = 0x2019 then 0x27 else c) s"

fun spec_renderSpan :: "LinkableTerms \<Rightarrow> rich_text_span \<Rightarrow> js_string" where
  "spec_renderSpan linkableTerms (Span txt None) = spec_stripCurlyQuotes txt"
| "spec_renderSpan linkableTerms (Span txt (Some pid)) =
     (case linkableTerms pid of
        None \<Rightarrow> spec_stripCurlyQuotes txt
      | Some e \<Rightarrow>
          if lt_valid e = Valid
          then js ''['' @ spec_stripCurlyQuotes txt @ js ''](''
               @ lt_page e @ js ''#'' @ lt_anchor e @ js '')''
          else spec_stripCurlyQuotes txt)"

definition spec_renderRichTexts :: "rich_text \<Rightarrow> LinkableTerms \<Rightarrow> js_string" where
  "spec_renderRichTexts spans linkableTerms = concat (map (spec_renderSpan linkableTerms) spans)"

fun spec_renderBlock :: "LinkableTerms \<Rightarrow> block \<Rightarrow> js_string" where
  "spec_renderBlock linkableTerms (Paragraph spans) =
     spec_renderRichTexts spans linkableTerms @ js ''\<newline>\<newline>''"
| "spec_renderBlock linkableTerms (ListItem spans) =
     js ''- '' @ spec_renderRichTexts spans linkableTerms @ js ''\<newline>''"

definition spec_renderBlocks :: "block list \<Rightarrow> LinkableTerms \<Rightarrow> js_string" where
  "spec_renderBlocks blocks linkableTerms = concat (map (spec_renderBlock linkableTerms) blocks)"

definition key_char :: "js_char \<Rightarrow> bool" where
  "key_char c =
     ((0x61 \<le> c \<and> c \<le> 0x7A) \<or> (0x41 \<le> c \<and> c \<le> 0x5A) \<or> (0x30 \<le> c \<and> c \<le> 0x39)
      \<or> is_whitespace c \<or> c = 0x24 \<or> c = 0x2D \<or> c = 0x28 \<or> c = 0x29)"

definition to_lower :: "js_char \<Rightarrow> js_char" where
  "to_lower c = (if 0x41 \<le> c \<and> c \<le> 0x5A then c + 0x20 else c)"

fun hyphenate :: "bool \<Rightarrow> js_string \<Rightarrow> js_string" where
  "hyphenate in_run [] = []"
| "hyphenate in_run (c # cs) =
     (if is_whitespace c
      then (if in_run then hyphenate True cs else 0x2D # hyphenate True cs)
      else c # hyphenate False cs)"

definition spec_formatGlossaryTermKey :: "rich_text \<Rightarrow> LinkableTerms \<Rightarrow> js_string" where
  "spec_formatGlossaryTermKey spans linkableTerms =
     hyphenate False (map to_lower (filter key_char (spec_renderRichTexts spans Map.empty)))"

definition spec_format ::
  "(rich_text, block, rich_text Definition \<Rightarrow> DefinitionValidity) format_module" where
  "spec_format =
     \<lparr> stripCurlyQuotes = spec_stripCurlyQuotes,
       renderBlocks = spec_renderBlocks,
       renderRichTexts = spec_renderRichTexts,
       formatGlossaryTermKey = spec_formatGlossaryTermKey,
       validDefinitionToPublish = (\<lambda>d rule. rule d) \<rparr>"

text \<open>
  Two collations for \<open>localeCompare\<close> on strings of ASCII letters, after the default
  comparison of ECMA-402 (sensitivity \<open>variant\<close>: strings that differ only in case compare
  unequal). Both compare the case-folded strings first; \<open>collate_lower_first\<close> then puts a
  lower-case letter before its upper-case one, as the root and English collations do, and
  \<open>collate_upper_first\<close> the upper-case one first, as the Danish collation does.
\<close>

definition is_upper :: "js_char \<Rightarrow> bool" where
  "is_upper c = (0x41 \<le> c \<and> c \<le> 0x5A)"

definition primary_key :: "js_string \<Rightarrow> nat list" where
  "primary_key s = map (\<lambda>c. unat (to_lower c)) s"

definition case_key :: "bool \<Rightarrow> js_string \<Rightarrow> nat list" where
  "case_key upper_first s = map (\<lambda>c. if is_upper c = upper_first then 0 else 1) s"

definition collate :: "bool \<Rightarrow> js_string \<Rightarrow> js_string \<Rightarrow> int" where
  "collate upper_first a b =
     (if primary_key a < primary_key b then - 1
      else if primary_key b < primary_key a then 1
      else if case_key upper_first a < case_key upper_first b then - 1
      else if case_key upper_first b < case_key upper_first a then 1
      else 0)"

definition collate_lower_first :: "js_string \<Rightarrow> js_string \<Rightarrow> int" where
  "collate_lower_first = collate False"

definition collate_upper_first :: "js_string \<Rightarrow> js_string \<Rightarrow> int" where
  "collate_upper_first = collate True"

section \<open>Specification-side notions\<close>

text \<open>
  The order in which the values of a list are first seen: \<open>first_seen_from seen xs\<close> lists
  the values of \<open>xs\<close> that are not in \<open>seen\<close>, each once, at its first occurrence.
\<close>

fun first_seen_from :: "'a list \<Rightarrow> 'a list \<Rightarrow> 'a list" where
  "first_seen_from seen [] = []"
| "first_seen_from seen (x # xs) =
     (if x \<in> set seen then first_seen_from seen xs else x # first_seen_from (seen @ [x]) xs)"

definition first_seen :: "'a list \<Rightarrow> 'a list" where
  "first_seen xs = first_seen_from [] xs"

section \<open>Example inputs\<close>

definition plain :: "string \<Rightarrow> rich_text" where
  "plain s = [Span (js s) None]"

definition def_Quorum :: "rich_text Definition" where
  "def_Quorum = \<lparr> d_pageId = js ''p1'', d_term = plain ''Quorum'',
     d_definition = plain ''Minimum turnout'', d_url = js ''https://n/p1'' \<rparr>"

definition def_quorum :: "rich_text Definition" where
  "def_quorum = \<lparr> d_pageId = js ''p2'', d_term = plain ''quorum'',
     d_definition = plain ''See above'', d_url = js ''https://n/p2'' \<rparr>"

definition def_RnD :: "rich_text Definition" where
  "def_RnD = \<lparr> d_pageId = js ''p3'', d_term = plain ''R&D'',
     d_definition = plain ''Research'', d_url = js ''https://n/p3'' \<rparr>"

definition publish_all :: "rich_text Definition \<Rightarrow> DefinitionValidity" where
  "publish_all d = Valid"

definition publish_all_but_p2 :: "rich_text Definition \<Rightarrow> DefinitionValidity" where
  "publish_all_but_p2 d = (if d_pageId d = js ''p2'' then Invalid 0 else Valid)"

definition faq_entry :: "string \<Rightarrow> int \<Rightarrow> string \<Rightarrow> block list \<Rightarrow> (rich_text, block) FAQ" where
  "faq_entry sec n q bs =
     \<lparr> f_section = js sec, f_order = n, f_question = js q, f_answer = plain ''yes'',
       f_blocks = bs \<rparr>"

definition faq_voting_2 :: "(rich_text, block) FAQ" where
  "faq_voting_2 = faq_entry ''Voting'' 2 ''Who votes?'' []"

definition faq_voting_1 :: "(rich_text, block) FAQ" where
  "faq_voting_1 = faq_entry ''Voting'' 1 ''How?'' [Paragraph (plain ''Online'')]"

definition faq_rewards_5 :: "(rich_text, block) FAQ" where
  "faq_rewards_5 = faq_entry ''Rewards'' 5 ''When?'' []"

definition faq_section_2 :: "(rich_text, block) FAQ" where
  "faq_section_2 = faq_entry ''2'' 1 ''Second?'' []"

definition faq_section_1 :: "(rich_text, block) FAQ" where
  "faq_section_1 = faq_entry ''1'' 1 ''First?'' []"

definition faq_constructor :: "(rich_text, block) FAQ" where
  "faq_constructor = faq_entry ''constructor'' 1 ''Who builds?'' []"

definition def_Vote :: "rich_text Definition" where
  "def_Vote = \<lparr> d_pageId = js ''p0'', d_term = [Span (js ''Quorum vote'') (Some (js ''p2''))],
     d_definition = plain ''A vote'', d_url = js ''https://n/p0'' \<rparr>"

section \<open>Sorting with a comparison function\<close>

lemma mset_js_insert: "mset (js_insert cmp x ys) = add_mset x (mset ys)"
  by (induction ys) simp_all

lemma mset_js_sort: "mset (js_sort cmp xs) = mset xs"
  by (induction xs) (simp_all add: js_sort_def mset_js_insert)

lemma set_js_insert: "set (js_insert cmp x ys) = insert x (set ys)"
  by (induction ys) auto

lemma consistent_total: "consistent_comparator cmp \<Longrightarrow> \<not> cmp x y \<le> 0 \<Longrightarrow> cmp y x \<le> 0"
  unfolding consistent_comparator_def by (metis linorder_not_le order_less_imp_le)

lemma consistent_trans:
  "consistent_comparator cmp \<Longrightarrow> cmp a b \<le> 0 \<Longrightarrow> cmp b c \<le> 0 \<Longrightarrow> cmp a c \<le> 0"
  unfolding consistent_comparator_def by blast

lemma consistent_sym: "consistent_comparator cmp \<Longrightarrow> cmp a b = 0 \<Longrightarrow> cmp b a = 0"
  unfolding consistent_comparator_def by (metis less_irrefl linorder_neqE_linordered_idom)

lemma sorted_js_insert:
  assumes "consistent_comparator cmp" "sorted_wrt (\<lambda>a b. cmp a b \<le> 0) ys"
  shows "sorted_wrt (\<lambda>a b. cmp a b \<le> 0) (js_insert cmp x ys)"
  using assms(2)
proof (induction ys)
  case Nil
  show ?case by simp
next
  case (Cons y ys)
  show ?case
  proof (cases "cmp x y \<le> 0")
    case True
    with Cons.prems assms(1) show ?thesis
      by (auto intro: consistent_trans)
  next
    case False
    then have "cmp y x \<le> 0" using assms(1) by (rule consistent_total[rotated])
    with False Cons show ?thesis
      by (auto simp: set_js_insert)
  qed
qed

lemma sorted_js_sort:
  "consistent_comparator cmp \<Longrightarrow> sorted_wrt (\<lambda>a b. cmp a b \<le> 0) (js_sort cmp xs)"
  by (induction xs) (simp_all add: js_sort_def sorted_js_insert)

lemma filter_js_insert:
  assumes "consistent_comparator cmp"
  shows "filter (\<lambda>y. cmp y t = 0) (js_insert cmp x ys)
       = (if cmp x t = 0 then x # filter (\<lambda>y. cmp y t = 0) ys else filter (\<lambda>y. cmp y t = 0) ys)"
proof (induction ys)
  case Nil
  show ?case by simp
next
  case (Cons y ys)
  have eq: "cmp x y \<le> 0" if "cmp x t = 0" "cmp y t = 0"
  proof -
    from that(2) have "cmp t y = 0" using assms by (rule consistent_sym[rotated])
    with that(1) show ?thesis using consistent_trans[OF assms, of x t y] by simp
  qed
  show ?case using Cons eq by auto
qed

lemma stable_js_sort:
  "consistent_comparator cmp \<Longrightarrow>
     filter (\<lambda>y. cmp y t = 0) (js_sort cmp xs) = filter (\<lambda>y. cmp y t = 0) xs"
  by (induction xs) (simp_all add: js_sort_def filter_js_insert)

lemma js_insert_insort_key:
  "js_insert (\<lambda>a b. f a - f b) x ys = insort_key f x ys" for f :: "'a \<Rightarrow> int"
  by (induction ys) simp_all

lemma js_sort_sort_key: "js_sort (\<lambda>a b. f a - f b) xs = sort_key f xs" for f :: "'a \<Rightarrow> int"
  by (induction xs) (simp_all add: js_sort_def js_insert_insort_key sort_key_def)

lemma consistent_on_field:
  "consistent_comparator cmp \<Longrightarrow> consistent_comparator (\<lambda>a b. cmp (f a) (f b))"
  unfolding consistent_comparator_def by blast

section \<open>Objects, loops and the collation instances\<close>

lemma for_in_no_index:
  "\<forall>p \<in> set obj. \<not> is_array_index (fst p) \<Longrightarrow> for_in obj = obj"
  by (simp add: for_in_def filter_empty_conv[THEN iffD2])

lemma renderSections_loop_concat:
  "renderSections_loop F lt ps out =
     out @ concat (map (\<lambda>p. js ''<h3 class=\"faq-section-title\">'' @ stripCurlyQuotes F (fst p)
            @ js ''</h3>\<newline>'' @ renderFAQs F (snd p) lt) ps)"
  by (induction ps arbitrary: out) simp_all

lemma lex2_le:
  fixes pa pb :: "'a::linorder" and ta tb :: "'b::linorder"
  shows "((if pa < pb then - 1 else if pb < pa then 1 else if ta < tb then - 1
           else if tb < ta then 1 else 0) \<le> (0::int))
         = (pa < pb \<or> (pa = pb \<and> ta \<le> tb))"
  by auto

lemma lex2_less:
  fixes pa pb :: "'a::linorder" and ta tb :: "'b::linorder"
  shows "((if pa < pb then - 1 else if pb < pa then 1 else if ta < tb then - 1
           else if tb < ta then 1 else 0) < (0::int))
         = (pa < pb \<or> (pa = pb \<and> ta < tb))"
  by auto

lemma lex2_greater:
  fixes pa pb :: "'a::linorder" and ta tb :: "'b::linorder"
  shows "((0::int) < (if pa < pb then - 1 else if pb < pa then 1 else if ta < tb then - 1
           else if tb < ta then 1 else 0))
         = (pb < pa \<or> (pa = pb \<and> tb < ta))"
  by auto

lemma consistent_collate: "consistent_comparator (collate u)"
  unfolding consistent_comparator_def collate_def lex2_le lex2_less lex2_greater
  by (metis order.strict_trans order.trans)

section \<open>The grouping computed by organizeFAQ\<close>

lemma first_seen_from_set: "set (first_seen_from seen xs) = set xs - set seen"
  by (induction xs arbitrary: seen) auto

lemma first_seen_from_fresh: "k \<in> set (first_seen_from seen xs) \<Longrightarrow> k \<notin> set seen"
  by (simp add: first_seen_from_set)

lemma first_seen_from_subset: "set (first_seen_from seen xs) \<subseteq> set xs"
  by (induction xs arbitrary: seen) auto

lemma first_seen_from_distinct: "distinct (first_seen_from seen xs)"
  by (induction xs arbitrary: seen) (auto dest: first_seen_from_fresh)

lemma set_property_absent:
  "map_of ps k = None \<Longrightarrow> set_property k v ps = ps @ [(k, v)]"
  by (induction ps) (auto split: if_splits)

lemma set_property_present:
  "map_of ps k = Some w \<Longrightarrow> distinct (map fst ps) \<Longrightarrow>
     set_property k v ps = map (\<lambda>p. if fst p = k then (k, v) else p) ps"
proof (induction ps)
  case Nil
  then show ?case by simp
next
  case (Cons p ps)
  show ?case
  proof (cases "fst p = k")
    case True
    with Cons.prems(2) have "k \<notin> fst ` set ps" by simp
    then have "\<forall>r \<in> set ps. fst r \<noteq> k" by blast
    then have "map (\<lambda>p. if fst p = k then (k, v) else p) ps = ps"
      by (simp add: map_idI)
    with True show ?thesis by simp
  next
    case False
    with Cons show ?thesis by (cases p) auto
  qed
qed

lemma organizeFAQ_loop_groups:
  assumes "\<forall>q \<in> set qs. f_section q \<notin> set object_prototype_keys"
    and "distinct (map fst secs)"
  shows "organizeFAQ_loop qs secs =
     Inr (map (\<lambda>p. (fst p, snd p @ filter (\<lambda>q. f_section q = fst p) qs)) secs
          @ map (\<lambda>k. (k, filter (\<lambda>q. f_section q = k) qs))
              (first_seen_from (map fst secs) (map f_section qs)))"
  using assms
proof (induction qs arbitrary: secs)
  case Nil
  then show ?case by simp
next
  case (Cons q qs)
  let ?s = "f_section q"
  show ?case
  proof (cases "map_of secs ?s")
    case None
    then have fresh: "?s \<notin> set (map fst secs)"
      by (simp add: map_of_eq_None_iff)
    let ?secs' = "secs @ [(?s, [q])]"
    have d: "distinct (map fst ?secs')" using Cons.prems(2) fresh by simp
    have ih: "organizeFAQ_loop qs ?secs' =
       Inr (map (\<lambda>p. (fst p, snd p @ filter (\<lambda>q. f_section q = fst p) qs)) ?secs'
            @ map (\<lambda>k. (k, filter (\<lambda>q. f_section q = k) qs))
                (first_seen_from (map fst ?secs') (map f_section qs)))"
      using Cons.prems(1) d by (intro Cons.IH) simp_all
    have a: "map (\<lambda>p. (fst p, snd p @ filter (\<lambda>q. f_section q = fst p) qs)) secs
           = map (\<lambda>p. (fst p, snd p @ filter (\<lambda>r. f_section r = fst p) (q # qs))) secs"
      using fresh by (intro map_cong) auto
    have b: "map (\<lambda>k. (k, filter (\<lambda>q. f_section q = k) qs))
               (first_seen_from (map fst secs @ [?s]) (map f_section qs))
           = map (\<lambda>k. (k, filter (\<lambda>r. f_section r = k) (q # qs)))
               (first_seen_from (map fst secs @ [?s]) (map f_section qs))"
      by (intro map_cong) (auto dest: first_seen_from_fresh)
    from None Cons.prems(1) fresh show ?thesis
      by (simp add: set_property_absent ih a b)
  next
    case (Some arr)
    then have mem: "?s \<in> set (map fst secs)"
      by (metis map_of_eq_None_iff option.distinct(1) set_map)
    let ?secs' = "map (\<lambda>p. if fst p = ?s then (?s, arr @ [q]) else p) secs"
    have keys: "map fst ?secs' = map fst secs" by (induction secs) auto
    have d: "distinct (map fst ?secs')" using Cons.prems(2) unfolding keys .
    have ih: "organizeFAQ_loop qs ?secs' =
       Inr (map (\<lambda>p. (fst p, snd p @ filter (\<lambda>q. f_section q = fst p) qs)) ?secs'
            @ map (\<lambda>k. (k, filter (\<lambda>q. f_section q = k) qs))
                (first_seen_from (map fst ?secs') (map f_section qs)))"
      using Cons.prems(1) by (intro Cons.IH d) simp
    have arr: "snd p = arr" if "p \<in> set secs" "fst p = ?s" for p
    proof -
      from that have "(?s, snd p) \<in> set secs" by (metis prod.collapse)
      then have "map_of secs ?s = Some (snd p)"
        using map_of_eq_Some_iff[OF Cons.prems(2)] by blast
      with Some show ?thesis by simp
    qed
    have a: "map (\<lambda>p. (fst p, snd p @ filter (\<lambda>q. f_section q = fst p) qs)) ?secs'
           = map (\<lambda>p. (fst p, snd p @ filter (\<lambda>r. f_section r = fst p) (q # qs))) secs"
      unfolding map_map by (intro map_cong) (auto simp: arr)
    have b: "map (\<lambda>k. (k, filter (\<lambda>q. f_section q = k) qs))
               (first_seen_from (map fst secs) (map f_section qs))
           = map (\<lambda>k. (k, filter (\<lambda>r. f_section r = k) (q # qs)))
               (first_seen_from (map fst secs) (map f_section qs))"
    proof (intro map_cong refl)
      fix k assume "k \<in> set (first_seen_from (map fst secs) (map f_section qs))"
      then have "k \<notin> set (map fst secs)" by (rule first_seen_from_fresh)
      with mem have "k \<noteq> ?s" by blast
      then show "(k, filter (\<lambda>q. f_section q = k) qs) = (k, filter (\<lambda>r. f_section r = k) (q # qs))"
        by auto
    qed
    have step: "organizeFAQ_loop (q # qs) secs = organizeFAQ_loop qs ?secs'"
      using Some by (simp add: set_property_present[OF Some Cons.prems(2)])
    have fs: "first_seen_from (map fst secs) (map f_section (q # qs))
            = first_seen_from (map fst secs) (map f_section qs)"
      using mem by simp
    show ?thesis by (simp only: step ih keys a b fs)
  qed
qed

lemma set_set_property: "fst ` set (set_property k v ps) = insert k (fst ` set ps)"
  by (induction ps) auto

lemma organizeFAQ_loop_throws:
  assumes "q \<in> set qs" "f_section q \<in> set object_prototype_keys"
    and "\<forall>p \<in> set secs. fst p \<notin> set object_prototype_keys"
  shows "organizeFAQ_loop qs secs = Inl TypeError"
  using assms
proof (induction qs arbitrary: secs)
  case Nil
  then show ?case by simp
next
  case (Cons r qs)
  show ?case
  proof (cases "map_of secs (f_section r)")
    case None
    show ?thesis
    proof (cases "f_section r \<in> set object_prototype_keys")
      case True
      with None show ?thesis by simp
    next
      case False
      with Cons.prems have "q \<in> set qs" by auto
      moreover have "\<forall>p \<in> set (secs @ [(f_section r, [r])]). fst p \<notin> set object_prototype_keys"
        using Cons.prems(3) False by auto
      ultimately have "organizeFAQ_loop qs (secs @ [(f_section r, [r])]) = Inl TypeError"
        using Cons.prems(2) by (intro Cons.IH)
      with None False show ?thesis by (simp add: set_property_absent)
    qed
  next
    case (Some arr)
    then have "(f_section r, arr) \<in> set secs" by (rule map_of_SomeD)
    with Cons.prems(3) have nr: "f_section r \<notin> set object_prototype_keys" by force
    with Cons.prems have "q \<in> set qs" by auto
    moreover have "\<forall>p \<in> set (set_property (f_section r) (arr @ [r]) secs).
                     fst p \<notin> set object_prototype_keys"
    proof
      fix p assume "p \<in> set (set_property (f_section r) (arr @ [r]) secs)"
      then have "fst p \<in> insert (f_section r) (fst ` set secs)"
        using set_set_property by (metis imageI)
      with Cons.prems(3) nr show "fst p \<notin> set object_prototype_keys" by auto
    qed
    ultimately have "organizeFAQ_loop qs (set_property (f_section r) (arr @ [r]) secs) = Inl TypeError"
      using Cons.prems(2) by (intro Cons.IH)
    with Some show ?thesis by simp
  qed
qed

section \<open>Evaluation on the example inputs\<close>

lemmas example_defs = def_Quorum_def def_quorum_def def_RnD_def plain_def publish_all_def
  publish_all_but_p2_def faq_entry_def faq_voting_1_def faq_voting_2_def faq_rewards_5_def
  faq_section_1_def faq_section_2_def faq_constructor_def def_Vote_def

lemmas spec_format_defs = spec_format_def spec_stripCurlyQuotes_def spec_renderRichTexts_def
  spec_renderBlocks_def spec_formatGlossaryTermKey_def

lemma organizeFAQ_voting_2: "organizeFAQ [faq_voting_2] = Inr [(js ''Voting'', [faq_voting_2])]"
  by (simp add: organizeFAQ_def object_prototype_keys_def js_sort_def faq_voting_2_def
      faq_entry_def js_def)

section \<open>Auxiliary facts about the composers\<close>

lemma main_Inr:
  "main F localeCompare proj faqs defs = Inr out \<Longrightarrow>
     glossary_partial out =
       formatDefinitions F localeCompare (publishedDefinitions F proj defs)
         (buildLinkableTerms F proj defs Map.empty)"
  by (auto simp: main_def Let_def split: sum.splits)

lemma count_list_filter:
  "count_list (filter P xs) x = (if P x then count_list xs x else 0)"
  by (induction xs) auto

lemma distinct_count_list: "distinct xs \<Longrightarrow> x \<in> set xs \<Longrightarrow> count_list xs x = 1"
  by (induction xs) (auto simp: count_list_0_iff)

lemma dollar_to_paren:
  fixes c :: "16 word"
  assumes "0x24 \<le> c" "c \<le> 0x28"
  shows "c = 0x24 \<or> c = 0x25 \<or> c = 0x26 \<or> c = 0x27 \<or> c = 0x28"
proof -
  from assms have "36 \<le> unat c" "unat c \<le> 40" by (simp_all add: word_le_nat_alt)
  then have "unat c = 36 \<or> unat c = 37 \<or> unat c = 38 \<or> unat c = 39 \<or> unat c = 40" by arith
  moreover have "c = of_nat (unat c)" by simp
  ultimately show ?thesis by (metis of_nat_numeral)
qed

lemma term_class_chars:
  "set (r_term (renderDefinition F d linkableTerms))
     \<subseteq> {c. key_char c \<or> c = 0x25 \<or> c = 0x26 \<or> c = 0x27}"
proof -
  have "term_class c \<Longrightarrow> key_char c \<or> c = 0x25 \<or> c = 0x26 \<or> c = 0x27" for c
    unfolding term_class_def key_char_def using dollar_to_paren[of c] by blast
  then show ?thesis by (auto simp: renderDefinition_def Let_def)
qed

lemma organizeFAQ_groups:
  assumes "\<forall>q \<in> set faqs. f_section q \<notin> set object_prototype_keys"
  shows "organizeFAQ faqs =
     Inr (map (\<lambda>k. (k, sort_key f_order (filter (\<lambda>q. f_section q = k) faqs)))
            (first_seen (map f_section faqs)))"
  using organizeFAQ_loop_groups [OF assms, of "[]"]
  by (simp add: organizeFAQ_def first_seen_def js_sort_sort_key comp_def)

lemma organizeFAQ_throws:
  assumes "q \<in> set faqs" "f_section q \<in> set object_prototype_keys"
  shows "organizeFAQ faqs = Inl TypeError"
  using organizeFAQ_loop_throws [OF assms, of "[]"] by (simp add: organizeFAQ_def)

lemma renderSections_concat:
  "renderSections F sections lt =
     concat (map (\<lambda>p. js ''<h3 class=\"faq-section-title\">'' @ stripCurlyQuotes F (fst p)
            @ js ''</h3>\<newline>'' @ renderFAQs F (snd p) lt) (for_in sections))"
  by (simp add: renderSections_def renderSections_loop_concat)

lemma first_seen_voting:
  "first_seen (map f_section [faq_voting_2, faq_voting_1, faq_rewards_5])
     = [js ''Voting'', js ''Rewards'']"
  by (simp add: first_seen_def example_defs js_def)

lemma mset_concat_map:
  "mset (concat (map f xs)) = sum_mset (image_mset (\<lambda>x. mset (f x)) (mset xs))"
  by (induction xs) simp_all

lemma mset_for_in: "mset (for_in obj) = mset obj"
  by (simp add: for_in_def)

lemma mset_groups_for_in: "mset (concat (map snd (for_in obj))) = mset (concat (map snd obj))"
  by (simp add: mset_concat_map mset_for_in)

lemma mset_set_property_push:
  "map_of secs k = Some arr \<Longrightarrow>
     mset (concat (map snd (set_property k (arr @ [q]) secs)))
       = add_mset q (mset (concat (map snd secs)))"
  by (induction secs) (auto split: if_splits)

lemma organizeFAQ_loop_mset:
  "organizeFAQ_loop qs secs = Inr res \<Longrightarrow>
     mset (concat (map snd res)) = mset (concat (map snd secs)) + mset qs"
proof (induction qs arbitrary: secs)
  case Nil
  then show ?case by simp
next
  case (Cons q qs)
  show ?case
  proof (cases "map_of secs (f_section q)")
    case None
    with Cons.prems have "organizeFAQ_loop qs (secs @ [(f_section q, [q])]) = Inr res"
      by (simp add: set_property_absent split: if_splits)
    from Cons.IH [OF this] show ?thesis by simp
  next
    case (Some arr)
    with Cons.prems have
      "organizeFAQ_loop qs (set_property (f_section q) (arr @ [q]) secs) = Inr res"
      by simp
    from Cons.IH [OF this] show ?thesis by (simp add: mset_set_property_push [OF Some])
  qed
qed

lemma mset_sorted_groups:
  "mset (concat (map snd (map (\<lambda>(section, arr). (section, js_sort cmp arr)) secs)))
     = mset (concat (map snd secs))"
  by (induction secs) (auto simp: mset_js_sort)

lemma organizeFAQ_mset:
  "organizeFAQ faqs = Inr sections \<Longrightarrow> mset (concat (map snd sections)) = mset faqs"
proof -
  assume a: "organizeFAQ faqs = Inr sections"
  then obtain res where l: "organizeFAQ_loop faqs [] = Inr res"
    and s: "sections = map (\<lambda>(section, arr).
        (section, js_sort (\<lambda>question1 question2. f_order question1 - f_order question2) arr)) res"
    by (auto simp: organizeFAQ_def split: sum.splits)
  from organizeFAQ_loop_mset [OF l] have "mset (concat (map snd res)) = mset faqs" by simp
  then show ?thesis by (simp only: s mset_sorted_groups)
qed

lemma renderSections_pairs:
  "renderSections F sections lt =
     concat (map (\<lambda>p. js ''<h3 class=\"faq-section-title\">'' @ stripCurlyQuotes F (fst p)
            @ js ''</h3>\<newline>'' @ js ''<dl class=\"definition-list\">\<newline>''
            @ concat (map (\<lambda>faq. renderFAQ F faq lt) (snd p)) @ js ''</dl>\<newline>'')
       (for_in sections))"
  by (simp add: renderSections_concat renderFAQs_def)

lemma main_Inr_faq:
  "main F localeCompare proj faqs defs = Inr out \<Longrightarrow>
     \<exists>sections. organizeFAQ faqs = Inr sections
       \<and> faq_partial out = renderSections F sections (buildLinkableTerms F proj defs Map.empty)"
  by (auto simp: main_def Let_def split: sum.splits)

lemma organizeFAQ_voting_1: "organizeFAQ [faq_voting_1] = Inr [(js ''Voting'', [faq_voting_1])]"
  by (simp add: organizeFAQ_def object_prototype_keys_def js_sort_def faq_voting_1_def
      faq_entry_def js_def)

lemma organizeFAQ_rewards_5: "organizeFAQ [faq_rewards_5] = Inr [(js ''Rewards'', [faq_rewards_5])]"
  by (simp add: organizeFAQ_def object_prototype_keys_def js_sort_def faq_rewards_5_def
      faq_entry_def js_def)

lemma for_in_single_word:
  "\<not> is_array_index k \<Longrightarrow> for_in [(k, v)] = [(k, v)]"
  by (simp add: for_in_def)

lemma buildLinkableTerms_snoc:
  "buildLinkableTerms F proj (ds @ [d]) lt =
     (buildLinkableTerms F proj ds lt)(d_pageId d \<mapsto>
        \<lparr> lt_text = renderRichTexts F (d_term d) (buildLinkableTerms F proj ds lt),
          lt_anchor = formatGlossaryTermKey F (d_term d) (buildLinkableTerms F proj ds lt),
          lt_page = js ''../dao-glossary.md'',
          lt_valid = validDefinitionToPublish F d proj,
          lt_notionURL = d_url d \<rparr>)"
  by (induction ds arbitrary: lt) simp_all

lemma set_for_in: "set (for_in obj) = set obj"
  using mset_for_in [of obj] by (metis set_mset_mset)

lemma dom_buildLinkableTerms:
  "dom (buildLinkableTerms F proj defs lt) = dom lt \<union> d_pageId ` set defs"
  by (induction defs arbitrary: lt) auto

section \<open>The claims\<close>

text \<open>
  C10. When the list of published definitions is empty, \<open>formatDefinitions\<close> still returns the
  container wrapper, exactly the string
  \<^verbatim>\<open><div class="hidden-glossary">\n\n\n</div>\n\<close>; and for any list of definitions the
  string it returns is not empty.
\<close>

theorem formatDefinitions_empty_wrapper:
  "formatDefinitions F localeCompare [] linkableTerms
     = js ''<div class=\"hidden-glossary\">\<newline>\<newline>\<newline></div>\<newline>''
   \<and> formatDefinitions F localeCompare definitions linkableTerms \<noteq> []"
  by (simp add: formatDefinitions_def renderedDefs_def js_sort_def js_def)

text \<open>
  C8. For every FAQ entry, the rendered answer is produced by the block renderer if the
  entry's sequence of blocks is non-empty, and from the plain rich-text answer field if it is
  empty; either way it is passed through \<open>stripCurlyQuotes\<close> into the \<open>dd\<close> element.
\<close>

theorem renderFAQ_answer_source:
  "(f_blocks faq \<noteq> [] \<longrightarrow>
      renderFAQ F faq linkableTerms =
        js ''<dt data-displayed-on='dao-glossary'>'' @ stripCurlyQuotes F (f_question faq)
        @ js ''</dt>\<newline>'' @ js ''<dd data-displayed-on='dao-glossary'>''
        @ stripCurlyQuotes F (renderBlocks F (f_blocks faq) linkableTerms) @ js ''</dd>\<newline>'')
   \<and> (f_blocks faq = [] \<longrightarrow>
      renderFAQ F faq linkableTerms =
        js ''<dt data-displayed-on='dao-glossary'>'' @ stripCurlyQuotes F (f_question faq)
        @ js ''</dt>\<newline>'' @ js ''<dd data-displayed-on='dao-glossary'>''
        @ stripCurlyQuotes F (renderRichTexts F (f_answer faq) linkableTerms) @ js ''</dd>\<newline>'')"
  by (simp add: renderFAQ_def Let_def)

theorem renderFAQ_answer_source_witness:
  "f_blocks faq_voting_1 \<noteq> []
   \<and> renderFAQ spec_format faq_voting_1 Map.empty =
       js ''<dt data-displayed-on='dao-glossary'>How?</dt>\<newline><dd data-displayed-on='dao-glossary'>Online\<newline>\<newline></dd>\<newline>''
   \<and> f_blocks faq_voting_2 = []
   \<and> renderFAQ spec_format faq_voting_2 Map.empty =
       js ''<dt data-displayed-on='dao-glossary'>Who votes?</dt>\<newline><dd data-displayed-on='dao-glossary'>yes</dd>\<newline>''"
proof -
  have b1: "f_blocks faq_voting_1 \<noteq> []" and b2: "f_blocks faq_voting_2 = []"
    by (simp_all add: faq_voting_1_def faq_voting_2_def faq_entry_def)
  have r1: "renderFAQ spec_format faq_voting_1 Map.empty =
        js ''<dt data-displayed-on='dao-glossary'>'' @ stripCurlyQuotes spec_format (f_question faq_voting_1)
        @ js ''</dt>\<newline>'' @ js ''<dd data-displayed-on='dao-glossary'>''
        @ stripCurlyQuotes spec_format (renderBlocks spec_format (f_blocks faq_voting_1) Map.empty)
        @ js ''</dd>\<newline>''"
    using renderFAQ_answer_source [of faq_voting_1 spec_format Map.empty] b1 by blast
  have r2: "renderFAQ spec_format faq_voting_2 Map.empty =
        js ''<dt data-displayed-on='dao-glossary'>'' @ stripCurlyQuotes spec_format (f_question faq_voting_2)
        @ js ''</dt>\<newline>'' @ js ''<dd data-displayed-on='dao-glossary'>''
        @ stripCurlyQuotes spec_format (renderRichTexts spec_format (f_answer faq_voting_2) Map.empty)
        @ js ''</dd>\<newline>''"
    using renderFAQ_answer_source [of faq_voting_2 spec_format Map.empty] b2 by blast
  show ?thesis
    unfolding r1 r2
    by (simp add: faq_voting_1_def faq_voting_2_def faq_entry_def plain_def spec_format_def
        spec_stripCurlyQuotes_def spec_renderBlocks_def spec_renderRichTexts_def js_def)
qed

text \<open>
  C1. When \<open>main\<close> writes its files, the glossary fragment is the wrapper around one heading
  block per rendered triple, and the rendered triples are, as a multiset, the renderings of
  exactly the fetched definitions that the classifier maps to \<open>Valid\<close>. For a fetched list
  without repetitions, each definition is published exactly once if it is classified
  \<open>Valid\<close> and not at all otherwise.
\<close>

theorem glossary_holds_exactly_valid:
  assumes "main F localeCompare proj faqs defs = Inr out"
  shows "glossary_partial out =
           js ''<div class=\"hidden-glossary\">\<newline>\<newline>''
           @ concat (map glossaryItem
               (renderedDefs F localeCompare (publishedDefinitions F proj defs)
                  (buildLinkableTerms F proj defs Map.empty)))
           @ js ''\<newline></div>\<newline>''
       \<and> mset (renderedDefs F localeCompare (publishedDefinitions F proj defs)
                  (buildLinkableTerms F proj defs Map.empty))
           = image_mset (\<lambda>d. renderDefinition F d (buildLinkableTerms F proj defs Map.empty))
               (filter_mset (\<lambda>d. validDefinitionToPublish F d proj = Valid) (mset defs))
       \<and> (distinct defs \<longrightarrow>
            (\<forall>d \<in> set defs. count_list (publishedDefinitions F proj defs) d
                = (if validDefinitionToPublish F d proj = Valid then 1 else 0)))"
proof -
  have "glossary_partial out =
       formatDefinitions F localeCompare (publishedDefinitions F proj defs)
         (buildLinkableTerms F proj defs Map.empty)"
    using assms by (rule main_Inr)
  then have a: "glossary_partial out =
           js ''<div class=\"hidden-glossary\">\<newline>\<newline>''
           @ concat (map glossaryItem
               (renderedDefs F localeCompare (publishedDefinitions F proj defs)
                  (buildLinkableTerms F proj defs Map.empty)))
           @ js ''\<newline></div>\<newline>''"
    by (simp add: formatDefinitions_def Let_def)
  have b: "mset (renderedDefs F localeCompare (publishedDefinitions F proj defs)
                  (buildLinkableTerms F proj defs Map.empty))
           = image_mset (\<lambda>d. renderDefinition F d (buildLinkableTerms F proj defs Map.empty))
               (filter_mset (\<lambda>d. validDefinitionToPublish F d proj = Valid) (mset defs))"
    by (simp add: renderedDefs_def mset_js_sort publishedDefinitions_def)
  have c: "distinct defs \<longrightarrow>
            (\<forall>d \<in> set defs. count_list (publishedDefinitions F proj defs) d
                = (if validDefinitionToPublish F d proj = Valid then 1 else 0))"
    by (simp add: publishedDefinitions_def count_list_filter distinct_count_list)
  from a b c show ?thesis by blast
qed

theorem glossary_holds_exactly_valid_witness:
  "\<exists>out. main spec_format collate_lower_first publish_all_but_p2 [faq_voting_2]
            [def_Quorum, def_quorum, def_RnD] = Inr out
     \<and> glossary_partial out =
         js ''<div class=\"hidden-glossary\">\<newline>\<newline>### Quorum {#quorum}\<newline>Minimum turnout\<newline>\<newline>### R&D {#rd}\<newline>Research\<newline>\<newline>\<newline></div>\<newline>''
     \<and> count_list (publishedDefinitions spec_format publish_all_but_p2
            [def_Quorum, def_quorum, def_RnD]) def_Quorum = 1
     \<and> count_list (publishedDefinitions spec_format publish_all_but_p2
            [def_Quorum, def_quorum, def_RnD]) def_quorum = 0"
proof -
  let ?defs = "[def_Quorum, def_quorum, def_RnD]"
  let ?lt = "buildLinkableTerms spec_format publish_all_but_p2 ?defs Map.empty"
  obtain out where m: "main spec_format collate_lower_first publish_all_but_p2 [faq_voting_2]
      ?defs = Inr out"
    by (simp add: main_def Let_def organizeFAQ_voting_2)
  note t = glossary_holds_exactly_valid [OF m]
  have d: "distinct ?defs" by (simp add: example_defs js_def)
  have p: "publishedDefinitions spec_format publish_all_but_p2 ?defs = [def_Quorum, def_RnD]"
    by (simp add: publishedDefinitions_def spec_format_def example_defs js_def)
  have r: "renderedDefs spec_format collate_lower_first [def_Quorum, def_RnD] ?lt
         = [\<lparr> r_term = js ''Quorum'', r_definition = js ''Minimum turnout'', r_key = js ''quorum'' \<rparr>,
            \<lparr> r_term = js ''R&D'', r_definition = js ''Research'', r_key = js ''rd'' \<rparr>]"
    by (simp add: renderedDefs_def js_sort_def renderDefinition_def Let_def example_defs
        spec_format_defs term_class_def is_whitespace_def key_char_def
        collate_lower_first_def collate_def primary_key_def case_key_def
        to_lower_def is_upper_def js_def)
  have g: "glossary_partial out =
         js ''<div class=\"hidden-glossary\">\<newline>\<newline>### Quorum {#quorum}\<newline>Minimum turnout\<newline>\<newline>### R&D {#rd}\<newline>Research\<newline>\<newline>\<newline></div>\<newline>''"
    using t unfolding p r by (simp add: glossaryItem_def js_def)
  have c: "\<forall>d \<in> set ?defs. count_list (publishedDefinitions spec_format publish_all_but_p2 ?defs) d
                = (if validDefinitionToPublish spec_format d publish_all_but_p2 = Valid then 1 else 0)"
    using t d by blast
  have c1: "count_list (publishedDefinitions spec_format publish_all_but_p2 ?defs) def_Quorum = 1"
    using c by (simp add: spec_format_def publish_all_but_p2_def def_Quorum_def js_def)
  have c2: "count_list (publishedDefinitions spec_format publish_all_but_p2 ?defs) def_quorum = 0"
    using c by (simp add: spec_format_def publish_all_but_p2_def def_quorum_def js_def)
  from m g c1 c2 show ?thesis by blast
qed

text \<open>
  C5. The claim is that every character of the formatted term of \<open>renderDefinition\<close> is a
  letter, a digit, white space, \<open>$\<close>, \<open>-\<close> or a parenthesis (\<open>key_char\<close>). The term \<open>R&D\<close> keeps
  its ampersand: in the class of the regular expression, \<open>$-(\<close> is the range U+0024 to
  U+0028, which also holds \<open>%\<close>, \<open>&\<close> and the apostrophe. The comment above the expression
  in the script asks for the set of the claim. What the expression guarantees is
  \<open>term_class_chars\<close>: every character kept is in that set or is one of these three.
\<close>

theorem renderDefinition_keeps_ampersand:
  "r_term (renderDefinition spec_format def_RnD Map.empty) = js ''R&D''
   \<and> \<not> list_all key_char (r_term (renderDefinition spec_format def_RnD Map.empty))"
  by (simp add: renderDefinition_def Let_def def_RnD_def plain_def spec_format_def
      spec_stripCurlyQuotes_def spec_renderRichTexts_def term_class_def key_char_def
      is_whitespace_def js_def)

text \<open>
  C3, as amended. Glossary entries are emitted in the order of the host's \<open>localeCompare\<close> on
  the formatted term, and entries whose terms compare equal under \<open>localeCompare\<close> keep their
  fetch order. The comparison is the default one, which is not case-insensitive: terms that
  differ only in case do not compare equal.
\<close>

theorem glossary_sorted_by_localeCompare:
  assumes "consistent_comparator localeCompare"
  shows "sorted_wrt (\<lambda>a b. localeCompare (r_term a) (r_term b) \<le> 0)
           (renderedDefs F localeCompare definitions linkableTerms)
       \<and> (\<forall>t. filter (\<lambda>r. localeCompare (r_term r) t = 0)
                 (renderedDefs F localeCompare definitions linkableTerms)
              = filter (\<lambda>r. localeCompare (r_term r) t = 0)
                 (map (\<lambda>d. renderDefinition F d linkableTerms) definitions))
       \<and> formatDefinitions F localeCompare definitions linkableTerms
           = js ''<div class=\"hidden-glossary\">\<newline>\<newline>''
             @ concat (map glossaryItem (renderedDefs F localeCompare definitions linkableTerms))
             @ js ''\<newline></div>\<newline>''"
proof -
  let ?cmp = "\<lambda>a b. localeCompare (r_term a) (r_term b)"
  have c: "consistent_comparator ?cmp"
    using assms by (rule consistent_on_field)
  have a: "sorted_wrt (\<lambda>a b. ?cmp a b \<le> 0) (renderedDefs F localeCompare definitions linkableTerms)"
    unfolding renderedDefs_def using c by (rule sorted_js_sort)
  have b: "filter (\<lambda>r. localeCompare (r_term r) t = 0)
                 (renderedDefs F localeCompare definitions linkableTerms)
              = filter (\<lambda>r. localeCompare (r_term r) t = 0)
                 (map (\<lambda>d. renderDefinition F d linkableTerms) definitions)" for t
  proof -
    let ?w = "\<lparr> r_term = t, r_definition = [], r_key = [] \<rparr>"
    have "filter (\<lambda>y. ?cmp y ?w = 0) (js_sort ?cmp (map (\<lambda>d. renderDefinition F d linkableTerms) definitions))
        = filter (\<lambda>y. ?cmp y ?w = 0) (map (\<lambda>d. renderDefinition F d linkableTerms) definitions)"
      using c by (rule stable_js_sort)
    then show ?thesis by (simp add: renderedDefs_def)
  qed
  from a b show ?thesis by (simp add: formatDefinitions_def Let_def)
qed

theorem glossary_sorted_by_localeCompare_witness:
  "consistent_comparator collate_lower_first
   \<and> sorted_wrt (\<lambda>a b. collate_lower_first (r_term a) (r_term b) \<le> 0)
        (renderedDefs spec_format collate_lower_first [def_RnD, def_Quorum, def_RnD] Map.empty)
   \<and> map r_definition (filter (\<lambda>r. collate_lower_first (r_term r) (js ''R&D'') = 0)
        (renderedDefs spec_format collate_lower_first [def_RnD, def_Quorum, def_RnD] Map.empty))
      = [js ''Research'', js ''Research'']"
proof -
  have c: "consistent_comparator collate_lower_first"
    unfolding collate_lower_first_def by (rule consistent_collate)
  note t = glossary_sorted_by_localeCompare [OF c, of spec_format "[def_RnD, def_Quorum, def_RnD]" Map.empty]
  have s: "sorted_wrt (\<lambda>a b. collate_lower_first (r_term a) (r_term b) \<le> 0)
        (renderedDefs spec_format collate_lower_first [def_RnD, def_Quorum, def_RnD] Map.empty)"
    using t by blast
  have "filter (\<lambda>r. collate_lower_first (r_term r) (js ''R&D'') = 0)
        (renderedDefs spec_format collate_lower_first [def_RnD, def_Quorum, def_RnD] Map.empty)
      = filter (\<lambda>r. collate_lower_first (r_term r) (js ''R&D'') = 0)
          (map (\<lambda>d. renderDefinition spec_format d Map.empty) [def_RnD, def_Quorum, def_RnD])"
    using t by blast
  then have f: "map r_definition (filter (\<lambda>r. collate_lower_first (r_term r) (js ''R&D'') = 0)
        (renderedDefs spec_format collate_lower_first [def_RnD, def_Quorum, def_RnD] Map.empty))
      = [js ''Research'', js ''Research'']"
    by (simp add: renderDefinition_def Let_def example_defs
        spec_format_defs term_class_def is_whitespace_def key_char_def
        collate_lower_first_def collate_def primary_key_def case_key_def
        to_lower_def is_upper_def js_def)
  from c s f show ?thesis by blast
qed

text \<open>
  C3, as stated, fails: \<open>Quorum\<close> and \<open>quorum\<close> are equal up to case, yet under a collation
  that puts lower case first the fetch order \<open>Quorum, quorum\<close> is reversed, and under one that
  puts upper case first the fetch order \<open>quorum, Quorum\<close> is reversed.
\<close>

theorem glossary_case_order_counterexample:
  "map r_term (renderedDefs spec_format collate_lower_first [def_Quorum, def_quorum] Map.empty)
     = [js ''quorum'', js ''Quorum'']
   \<and> map r_term (renderedDefs spec_format collate_upper_first [def_quorum, def_Quorum] Map.empty)
     = [js ''Quorum'', js ''quorum'']
   \<and> map to_lower (js ''Quorum'') = map to_lower (js ''quorum'')"
  by (simp add: renderedDefs_def js_sort_def renderDefinition_def Let_def def_Quorum_def
      def_quorum_def plain_def spec_format_defs term_class_def is_whitespace_def key_char_def
      collate_lower_first_def collate_upper_first_def collate_def primary_key_def case_key_def
      to_lower_def is_upper_def js_def)

text \<open>
  C4, as amended. For every input sequence of FAQ entries on which \<open>organizeFAQ\<close> returns
  (no section name is a property name of \<open>Object.prototype\<close>), within each section the
  entries appear in ascending value of \<open>order\<close>, entries of equal \<open>order\<close> in their input
  order; and if no section name is an array index, the sections appear in the output in the
  order in which each section name is first seen in the input.
\<close>

theorem faq_sections_first_seen_sorted:
  assumes "\<forall>q \<in> set faqs. f_section q \<notin> set object_prototype_keys"
  shows "\<exists>sections. organizeFAQ faqs = Inr sections
     \<and> (\<forall>p \<in> set (for_in sections).
           sorted (map f_order (snd p))
           \<and> (\<forall>n. filter (\<lambda>q. f_order q = n) (snd p)
                  = filter (\<lambda>q. f_section q = fst p \<and> f_order q = n) faqs))
     \<and> ((\<forall>q \<in> set faqs. \<not> is_array_index (f_section q)) \<longrightarrow>
           for_in sections =
             map (\<lambda>k. (k, sort_key f_order (filter (\<lambda>q. f_section q = k) faqs)))
               (first_seen (map f_section faqs))
           \<and> map fst (for_in sections) = first_seen (map f_section faqs))
     \<and> renderSections F sections linkableTerms =
         concat (map (\<lambda>p. js ''<h3 class=\"faq-section-title\">'' @ stripCurlyQuotes F (fst p)
            @ js ''</h3>\<newline>'' @ renderFAQs F (snd p) linkableTerms) (for_in sections))"
proof -
  let ?g = "\<lambda>k. (k, sort_key f_order (filter (\<lambda>q. f_section q = k) faqs))"
  let ?secs = "map ?g (first_seen (map f_section faqs))"
  have o: "organizeFAQ faqs = Inr ?secs" using assms by (rule organizeFAQ_groups)
  have "\<forall>p \<in> set ?secs.
           sorted (map f_order (snd p))
           \<and> (\<forall>n. filter (\<lambda>q. f_order q = n) (snd p)
                  = filter (\<lambda>q. f_section q = fst p \<and> f_order q = n) faqs)"
    by (auto simp: sort_key_stable)
  then have s: "\<forall>p \<in> set (for_in ?secs).
           sorted (map f_order (snd p))
           \<and> (\<forall>n. filter (\<lambda>q. f_order q = n) (snd p)
                  = filter (\<lambda>q. f_section q = fst p \<and> f_order q = n) faqs)"
    by (simp only: set_for_in)
  have k: "for_in ?secs = ?secs \<and> map fst (for_in ?secs) = first_seen (map f_section faqs)"
    if h: "\<forall>q \<in> set faqs. \<not> is_array_index (f_section q)"
  proof -
    have "set (first_seen (map f_section faqs)) \<subseteq> f_section ` set faqs"
      using first_seen_from_subset [of "[]" "map f_section faqs"] by (simp add: first_seen_def)
    with h have "\<forall>p \<in> set ?secs. \<not> is_array_index (fst p)" by auto
    then have f: "for_in ?secs = ?secs" by (rule for_in_no_index)
    then show ?thesis by (simp add: comp_def)
  qed
  show ?thesis
    using o s k renderSections_concat [of F ?secs linkableTerms]
    by (intro exI [of _ ?secs]) blast
qed

theorem faq_sections_first_seen_sorted_witness:
  "list_all (\<lambda>q. f_section q \<notin> set object_prototype_keys \<and> \<not> is_array_index (f_section q))
     [faq_voting_2, faq_voting_1, faq_rewards_5]
   \<and> (\<exists>sections. organizeFAQ [faq_voting_2, faq_voting_1, faq_rewards_5] = Inr sections
        \<and> for_in sections =
            [(js ''Voting'', [faq_voting_1, faq_voting_2]), (js ''Rewards'', [faq_rewards_5])])"
proof -
  let ?faqs = "[faq_voting_2, faq_voting_1, faq_rewards_5]"
  have h1: "\<forall>q \<in> set ?faqs. f_section q \<notin> set object_prototype_keys"
    by (simp add: example_defs object_prototype_keys_def js_def)
  have h2: "\<forall>q \<in> set ?faqs. \<not> is_array_index (f_section q)"
    by (simp add: example_defs is_array_index_def is_digit_def js_def)
  obtain sections where o: "organizeFAQ ?faqs = Inr sections"
    and f: "for_in sections =
         map (\<lambda>k. (k, sort_key f_order (filter (\<lambda>q. f_section q = k) ?faqs)))
           (first_seen (map f_section ?faqs))"
    using faq_sections_first_seen_sorted [OF h1] h2 by blast
  have "for_in sections =
      [(js ''Voting'', [faq_voting_1, faq_voting_2]), (js ''Rewards'', [faq_rewards_5])]"
    unfolding f first_seen_voting by (simp add: example_defs js_def)
  with o h1 h2 show ?thesis by (simp add: list_all_iff)
qed

text \<open>
  C4, as stated, fails: the sections \<open>2\<close> and \<open>1\<close>, first seen in this order, are rendered in
  the order \<open>1\<close>, \<open>2\<close>, since \<open>for ... in\<close> visits array-index keys first and in numeric order.
\<close>

theorem faq_sections_numeric_counterexample:
  "map_sum id (map fst \<circ> for_in) (organizeFAQ [faq_section_2, faq_section_1])
     = Inr [js ''1'', js ''2'']
   \<and> first_seen (map f_section [faq_section_2, faq_section_1]) = [js ''2'', js ''1'']"
  by (simp add: organizeFAQ_def object_prototype_keys_def js_sort_def for_in_def
      is_array_index_def is_digit_def index_value_def first_seen_def example_defs js_def)

text \<open>
  C9. The claim is that \<open>organizeFAQ\<close> partitions every input list into section groups
  without loss or duplication. For an entry of the section \<open>constructor\<close> the code fails it:
  the guard \<open>!sections[question.section]\<close>, meant to create the group of a section seen for
  the first time, finds the inherited \<open>Object.prototype.constructor\<close>, creates no array, and
  the following \<open>push\<close> throws a TypeError, which ends \<open>main\<close> as well.
\<close>

theorem organizeFAQ_constructor_throws:
  "organizeFAQ [faq_constructor] = Inl TypeError
   \<and> main spec_format collate_lower_first publish_all [faq_constructor] [def_Quorum]
     = Inl TypeError"
proof -
  have "organizeFAQ [faq_constructor] = Inl TypeError"
    by (simp add: organizeFAQ_def object_prototype_keys_def example_defs js_def)
  then show ?thesis by (simp add: main_def)
qed

text \<open>
  On every input the guard handles, the partition that C9 states holds: if no section name
  is a property name of \<open>Object.prototype\<close>, the groups have distinct keys, every entry lies in
  the group of its own section, the groups together hold exactly the input entries, and
  \<open>renderSections\<close> emits one \<open>renderFAQ\<close> pair per entry. The TypeError arises exactly for the
  other inputs.
\<close>

theorem organizeFAQ_partitions:
  "((\<forall>q \<in> set faqs. f_section q \<notin> set object_prototype_keys) \<longrightarrow>
      (\<exists>sections. organizeFAQ faqs = Inr sections
         \<and> distinct (map fst sections)
         \<and> (\<forall>p \<in> set sections. \<forall>q \<in> set (snd p). f_section q = fst p)
         \<and> mset (concat (map snd sections)) = mset faqs
         \<and> length (concat (map snd sections)) = length faqs
         \<and> mset (concat (map snd (for_in sections))) = mset faqs
         \<and> renderSections F sections linkableTerms =
             concat (map (\<lambda>p. js ''<h3 class=\"faq-section-title\">'' @ stripCurlyQuotes F (fst p)
                @ js ''</h3>\<newline>'' @ js ''<dl class=\"definition-list\">\<newline>''
                @ concat (map (\<lambda>faq. renderFAQ F faq linkableTerms) (snd p)) @ js ''</dl>\<newline>'')
               (for_in sections))))
   \<and> ((\<exists>q \<in> set faqs. f_section q \<in> set object_prototype_keys) \<longrightarrow>
        organizeFAQ faqs = Inl TypeError)"
proof (intro conjI impI)
  assume h: "\<forall>q \<in> set faqs. f_section q \<notin> set object_prototype_keys"
  let ?secs = "map (\<lambda>k. (k, sort_key f_order (filter (\<lambda>q. f_section q = k) faqs)))
            (first_seen (map f_section faqs))"
  have o: "organizeFAQ faqs = Inr ?secs" using h by (rule organizeFAQ_groups)
  have d: "distinct (map fst ?secs)"
    by (simp add: comp_def first_seen_def first_seen_from_distinct)
  have s: "\<forall>p \<in> set ?secs. \<forall>q \<in> set (snd p). f_section q = fst p" by auto
  have m: "mset (concat (map snd ?secs)) = mset faqs" using o by (rule organizeFAQ_mset)
  then have l: "length (concat (map snd ?secs)) = length faqs" by (rule mset_eq_length)
  have f: "mset (concat (map snd (for_in ?secs))) = mset faqs"
    using m by (simp only: mset_groups_for_in)
  show "\<exists>sections. organizeFAQ faqs = Inr sections
         \<and> distinct (map fst sections)
         \<and> (\<forall>p \<in> set sections. \<forall>q \<in> set (snd p). f_section q = fst p)
         \<and> mset (concat (map snd sections)) = mset faqs
         \<and> length (concat (map snd sections)) = length faqs
         \<and> mset (concat (map snd (for_in sections))) = mset faqs
         \<and> renderSections F sections linkableTerms =
             concat (map (\<lambda>p. js ''<h3 class=\"faq-section-title\">'' @ stripCurlyQuotes F (fst p)
                @ js ''</h3>\<newline>'' @ js ''<dl class=\"definition-list\">\<newline>''
                @ concat (map (\<lambda>faq. renderFAQ F faq linkableTerms) (snd p)) @ js ''</dl>\<newline>'')
               (for_in sections))"
    using o d s m l f renderSections_pairs [of F ?secs linkableTerms]
    by (intro exI [of _ ?secs] conjI)
next
  assume "\<exists>q \<in> set faqs. f_section q \<in> set object_prototype_keys"
  then show "organizeFAQ faqs = Inl TypeError" by (auto intro: organizeFAQ_throws)
qed

theorem organizeFAQ_partitions_witness:
  "list_all (\<lambda>q. f_section q \<notin> set object_prototype_keys) [faq_rewards_5, faq_voting_1]
   \<and> (\<exists>sections. organizeFAQ [faq_rewards_5, faq_voting_1] = Inr sections
        \<and> mset (concat (map snd sections)) = {#faq_rewards_5, faq_voting_1#}
        \<and> length (concat (map snd sections)) = 2)
   \<and> list_ex (\<lambda>q. f_section q \<in> set object_prototype_keys) [faq_voting_1, faq_constructor]
   \<and> organizeFAQ [faq_voting_1, faq_constructor] = Inl TypeError"
proof -
  have h1: "\<forall>q \<in> set [faq_rewards_5, faq_voting_1]. f_section q \<notin> set object_prototype_keys"
    by (simp add: example_defs object_prototype_keys_def js_def)
  have h2: "\<exists>q \<in> set [faq_voting_1, faq_constructor]. f_section q \<in> set object_prototype_keys"
    by (simp add: example_defs object_prototype_keys_def js_def)
  from organizeFAQ_partitions [of "[faq_rewards_5, faq_voting_1]"] h1
  obtain sections where "organizeFAQ [faq_rewards_5, faq_voting_1] = Inr sections"
    "mset (concat (map snd sections)) = mset [faq_rewards_5, faq_voting_1]"
    "length (concat (map snd sections)) = length [faq_rewards_5, faq_voting_1]"
    by blast
  then have a: "\<exists>sections. organizeFAQ [faq_rewards_5, faq_voting_1] = Inr sections
        \<and> mset (concat (map snd sections)) = {#faq_rewards_5, faq_voting_1#}
        \<and> length (concat (map snd sections)) = 2"
    by auto
  from organizeFAQ_partitions [of "[faq_voting_1, faq_constructor]"] h2
  have b: "organizeFAQ [faq_voting_1, faq_constructor] = Inl TypeError" by blast
  from h1 h2 a b show ?thesis by (simp add: list_all_iff list_ex_iff)
qed

text \<open>
  C6, as amended. In the FAQ partial, every section is introduced by the HTML heading
  \<^verbatim>\<open><h3 class="faq-section-title">\<close>, the section title after \<open>stripCurlyQuotes\<close>, and
  \<^verbatim>\<open></h3>\<close>, followed by a \<^verbatim>\<open><dl class="definition-list">\<close> block that holds one
  \<open>dt\<close>/\<open>dd\<close> pair per entry of that section.
\<close>

theorem faq_partial_layout:
  assumes "main F localeCompare proj faqs defs = Inr out"
  shows "\<exists>sections. organizeFAQ faqs = Inr sections
     \<and> faq_partial out =
         concat (map (\<lambda>p. js ''<h3 class=\"faq-section-title\">'' @ stripCurlyQuotes F (fst p)
            @ js ''</h3>\<newline>'' @ js ''<dl class=\"definition-list\">\<newline>''
            @ concat (map (\<lambda>faq.
                js ''<dt data-displayed-on='dao-glossary'>'' @ stripCurlyQuotes F (f_question faq)
                @ js ''</dt>\<newline>'' @ js ''<dd data-displayed-on='dao-glossary'>''
                @ stripCurlyQuotes F
                    (if f_blocks faq \<noteq> []
                     then renderBlocks F (f_blocks faq) (buildLinkableTerms F proj defs Map.empty)
                     else renderRichTexts F (f_answer faq) (buildLinkableTerms F proj defs Map.empty))
                @ js ''</dd>\<newline>'') (snd p))
            @ js ''</dl>\<newline>'')
           (for_in sections))"
proof -
  from main_Inr_faq [OF assms] obtain sections where o: "organizeFAQ faqs = Inr sections"
    and f: "faq_partial out = renderSections F sections (buildLinkableTerms F proj defs Map.empty)"
    by blast
  have r: "renderFAQ F faq lt =
        js ''<dt data-displayed-on='dao-glossary'>'' @ stripCurlyQuotes F (f_question faq)
        @ js ''</dt>\<newline>'' @ js ''<dd data-displayed-on='dao-glossary'>''
        @ stripCurlyQuotes F
            (if f_blocks faq \<noteq> [] then renderBlocks F (f_blocks faq) lt
             else renderRichTexts F (f_answer faq) lt)
        @ js ''</dd>\<newline>''" for faq :: "('a, 'b) FAQ" and lt
    by (simp add: renderFAQ_def Let_def)
  show ?thesis
    using o unfolding f renderSections_pairs r by blast
qed

theorem faq_partial_layout_witness:
  "\<exists>out. main spec_format collate_lower_first publish_all [faq_voting_1] [] = Inr out
     \<and> faq_partial out =
         js ''<h3 class=\"faq-section-title\">Voting</h3>\<newline><dl class=\"definition-list\">\<newline><dt data-displayed-on='dao-glossary'>How?</dt>\<newline><dd data-displayed-on='dao-glossary'>Online\<newline>\<newline></dd>\<newline></dl>\<newline>''"
proof -
  obtain out where m: "main spec_format collate_lower_first publish_all [faq_voting_1] [] = Inr out"
    by (simp add: main_def Let_def organizeFAQ_voting_1)
  have "\<not> is_array_index (js ''Voting'')"
    by (simp add: is_array_index_def is_digit_def js_def)
  then have fi: "for_in [(js ''Voting'', v)] = [(js ''Voting'', v)]" for v :: "(rich_text, block) FAQ list"
    by (rule for_in_single_word)
  from faq_partial_layout [OF m] obtain sections
    where o: "organizeFAQ [faq_voting_1] = Inr sections"
      and f: "faq_partial out =
         concat (map (\<lambda>p. js ''<h3 class=\"faq-section-title\">'' @ stripCurlyQuotes spec_format (fst p)
            @ js ''</h3>\<newline>'' @ js ''<dl class=\"definition-list\">\<newline>''
            @ concat (map (\<lambda>faq.
                js ''<dt data-displayed-on='dao-glossary'>'' @ stripCurlyQuotes spec_format (f_question faq)
                @ js ''</dt>\<newline>'' @ js ''<dd data-displayed-on='dao-glossary'>''
                @ stripCurlyQuotes spec_format
                    (if f_blocks faq \<noteq> []
                     then renderBlocks spec_format (f_blocks faq)
                            (buildLinkableTerms spec_format publish_all [] Map.empty)
                     else renderRichTexts spec_format (f_answer faq)
                            (buildLinkableTerms spec_format publish_all [] Map.empty))
                @ js ''</dd>\<newline>'') (snd p))
            @ js ''</dl>\<newline>'')
           (for_in sections))"
    by blast
  from o have s: "sections = [(js ''Voting'', [faq_voting_1])]"
    by (simp add: organizeFAQ_voting_1)
  have "faq_partial out =
         js ''<h3 class=\"faq-section-title\">Voting</h3>\<newline><dl class=\"definition-list\">\<newline><dt data-displayed-on='dao-glossary'>How?</dt>\<newline><dd data-displayed-on='dao-glossary'>Online\<newline>\<newline></dd>\<newline></dl>\<newline>''"
    unfolding f s fi by (simp add: example_defs spec_format_defs js_def)
  with m show ?thesis by blast
qed

text \<open>
  C6, as stated, fails: the heading of the section \<open>Rewards\<close> is an \<open>h3\<close> element, not the
  markdown heading \<^verbatim>\<open>### Rewards\<close>.
\<close>

theorem faq_heading_counterexample:
  "map_sum id faq_partial
     (main spec_format collate_lower_first publish_all [faq_rewards_5] [])
   = Inr (js ''<h3 class=\"faq-section-title\">Rewards</h3>\<newline><dl class=\"definition-list\">\<newline><dt data-displayed-on='dao-glossary'>When?</dt>\<newline><dd data-displayed-on='dao-glossary'>yes</dd>\<newline></dl>\<newline>'')
   \<and> map_sum id (take 11 \<circ> faq_partial)
     (main spec_format collate_lower_first publish_all [faq_rewards_5] [])
   \<noteq> Inr (js ''### Rewards'')"
proof -
  have "\<not> is_array_index (js ''Rewards'')"
    by (simp add: is_array_index_def is_digit_def js_def)
  then have fi: "for_in [(js ''Rewards'', v)] = [(js ''Rewards'', v)]" for v :: "(rich_text, block) FAQ list"
    by (rule for_in_single_word)
  have "renderSections spec_format [(js ''Rewards'', [faq_rewards_5])] lt
      = js ''<h3 class=\"faq-section-title\">Rewards</h3>\<newline><dl class=\"definition-list\">\<newline><dt data-displayed-on='dao-glossary'>When?</dt>\<newline><dd data-displayed-on='dao-glossary'>yes</dd>\<newline></dl>\<newline>''"
    for lt
    unfolding renderSections_def fi
    by (simp add: renderFAQs_def renderFAQ_def Let_def example_defs spec_format_defs js_def)
  then show ?thesis
    by (simp add: main_def Let_def organizeFAQ_rewards_5 js_def)
qed

text \<open>
  C2, as amended. When \<open>main\<close> writes its files, both fragments are rendered against the
  completed table: \<open>renderSections\<close> and \<open>formatDefinitions\<close> receive the same table, the
  result of the whole construction loop, which holds an entry for the page id of every
  fetched definition. Within the loop, the entry of each definition is rendered against the
  table that holds the entries of the definitions before it in fetch order.
\<close>

theorem fragments_rendered_with_complete_table:
  assumes "main F localeCompare proj faqs defs = Inr out"
  shows "\<exists>sections. organizeFAQ faqs = Inr sections
     \<and> faq_partial out =
         renderSections F sections (buildLinkableTerms F proj defs Map.empty)
     \<and> glossary_partial out =
         formatDefinitions F localeCompare (publishedDefinitions F proj defs)
           (buildLinkableTerms F proj defs Map.empty)
     \<and> dom (buildLinkableTerms F proj defs Map.empty) = d_pageId ` set defs
     \<and> buildLinkableTerms F proj (ds @ [d]) Map.empty =
         (buildLinkableTerms F proj ds Map.empty)(d_pageId d \<mapsto>
            \<lparr> lt_text = renderRichTexts F (d_term d) (buildLinkableTerms F proj ds Map.empty),
              lt_anchor = formatGlossaryTermKey F (d_term d) (buildLinkableTerms F proj ds Map.empty),
              lt_page = js ''../dao-glossary.md'',
              lt_valid = validDefinitionToPublish F d proj,
              lt_notionURL = d_url d \<rparr>)"
proof -
  from main_Inr_faq [OF assms] obtain sections where "organizeFAQ faqs = Inr sections"
    "faq_partial out = renderSections F sections (buildLinkableTerms F proj defs Map.empty)"
    by blast
  moreover note main_Inr [OF assms]
  moreover have "dom (buildLinkableTerms F proj defs Map.empty) = d_pageId ` set defs"
    by (simp add: dom_buildLinkableTerms)
  ultimately show ?thesis
    using buildLinkableTerms_snoc [of F proj ds d Map.empty] by blast
qed

theorem fragments_rendered_with_complete_table_witness:
  "\<exists>out. main spec_format collate_lower_first publish_all [faq_voting_2] [def_Vote, def_quorum]
            = Inr out
     \<and> faq_partial out =
         renderSections spec_format [(js ''Voting'', [faq_voting_2])]
           (buildLinkableTerms spec_format publish_all [def_Vote, def_quorum] Map.empty)
     \<and> dom (buildLinkableTerms spec_format publish_all [def_Vote, def_quorum] Map.empty)
         = {js ''p0'', js ''p2''}"
proof -
  obtain out where m: "main spec_format collate_lower_first publish_all [faq_voting_2]
      [def_Vote, def_quorum] = Inr out"
    by (simp add: main_def Let_def organizeFAQ_voting_2)
  from fragments_rendered_with_complete_table [OF m] obtain sections
    where o: "organizeFAQ [faq_voting_2] = Inr sections"
      and f: "faq_partial out =
         renderSections spec_format sections
           (buildLinkableTerms spec_format publish_all [def_Vote, def_quorum] Map.empty)"
      and d: "dom (buildLinkableTerms spec_format publish_all [def_Vote, def_quorum] Map.empty)
         = d_pageId ` set [def_Vote, def_quorum]"
    by blast
  from o have s: "sections = [(js ''Voting'', [faq_voting_2])]"
    by (simp add: organizeFAQ_voting_2)
  have k: "d_pageId ` set [def_Vote, def_quorum] = {js ''p0'', js ''p2''}"
    by (simp add: def_Vote_def def_quorum_def)
  from m f d show ?thesis unfolding s k by blast
qed

text \<open>
  C2, as stated, fails: rendering calls receive the table before every entry is inserted.
  The term of the first definition refers to the second one; its entry is rendered while
  the table is empty and holds plain text, where the complete table gives a link.
\<close>

theorem render_before_insert_counterexample:
  "map_option lt_text
       (buildLinkableTerms spec_format publish_all [def_Vote, def_quorum] Map.empty (js ''p0''))
     = Some (js ''Quorum vote'')
   \<and> renderRichTexts spec_format (d_term def_Vote)
       (buildLinkableTerms spec_format publish_all [def_Vote, def_quorum] Map.empty)
     = js ''[Quorum vote](../dao-glossary.md#quorum)''"
proof -
  have b: "map_option lt_text
       (buildLinkableTerms spec_format publish_all [def_Vote, def_quorum] Map.empty (js ''p0''))
     = Some (js ''Quorum vote'')"
    by (simp add: example_defs spec_format_defs key_char_def is_whitespace_def to_lower_def js_def)
  have c: "renderRichTexts spec_format (d_term def_Vote)
       (buildLinkableTerms spec_format publish_all [def_Vote, def_quorum] Map.empty)
     = js ''[Quorum vote](../dao-glossary.md#quorum)''"
    by (simp add: example_defs spec_format_defs key_char_def is_whitespace_def to_lower_def js_def)
  from b c show ?thesis by blast
qed

end
